theory Spec2Isabelle
  imports Main "HOL-Library.Sublist"
begin

section \<open>Exceptions, external calls and the shared browser state\<close>

text \<open>
  The tools of \<^verbatim>\<open>shopping_tools.py\<close> drive a browser through Playwright and call a
  search API.  Every such call is an external call: it either returns or raises.  The
  model takes the result of each external call from an environment record (one record per
  tool invocation) and logs the call in a trace of actions, so that "the browser is
  closed", "no click is performed" and "no second browser is launched" are statements
  about the trace.

  A raised exception is a value carrying its message (what \<^verbatim>\<open>str(e)\<close> gives); a call
  that may raise has a result of type \<open>exn + 'a\<close> with \<open>Inl\<close> for the exception.
  Only exceptions derived from \<^verbatim>\<open>Exception\<close> are modelled (Playwright errors, timeouts,
  \<^verbatim>\<open>AttributeError\<close>); task cancellation is outside the model.  Strings are byte
  sequences (UTF-8), console output (\<^verbatim>\<open>print\<close>) is not modelled.
\<close>

datatype exn = Raised string

fun message :: "exn \<Rightarrow> string" where
  "message (Raised m) = m"

type_synonym 'a outcome = "exn + 'a"

text \<open>
  An action is logged when the call is attempted, whether it then returns or raises.
  Handles of the visible session (playwright, browser, page objects) are numbers.
\<close>

datatype action =
    SearchApi string string
  | HeadlessStart
  | HeadlessLaunch
  | HeadlessNewPage
  | HeadlessGoto string
  | AnchorCount
  | AnchorHref
  | OfferRowClick
  | NewPageWait
  | NewPageLoad
  | HeadlessClose
  | HeadlessStop
  | VisibleStart
  | VisibleLaunch
  | VisibleNewContext
  | VisibleNewPage
  | Goto nat string
  | ClickAccept nat
  | IsVisible nat string
  | Click nat string
  | Sleep nat

text \<open>\<^verbatim>\<open>SHARED_BROWSER_STATE\<close>: the three handles, each \<^verbatim>\<open>None\<close> at import time.\<close>

record shared_browser_state =
  playwright :: "nat option"
  browser :: "nat option"
  page :: "nat option"

definition SHARED_BROWSER_STATE :: shared_browser_state where
  "SHARED_BROWSER_STATE = \<lparr>playwright = None, browser = None, page = None\<rparr>"

section \<open>Library functions\<close>

text \<open>Python's \<^verbatim>\<open>sub in s\<close> on strings.\<close>

fun py_in :: "string \<Rightarrow> string \<Rightarrow> bool" where
  "py_in sub [] = (sub = [])"
| "py_in sub (c # cs) = (prefix sub (c # cs) \<or> py_in sub cs)"

text \<open>
  \<^verbatim>\<open>urllib.parse.quote(s)\<close> with its default \<^verbatim>\<open>safe='/'\<close>: every byte that is not a
  letter, a digit, one of \<^verbatim>\<open>_.-~\<close> or \<^verbatim>\<open>/\<close> becomes \<^verbatim>\<open>%XX\<close> with upper-case
  hexadecimal digits.
\<close>

definition always_safe :: "char \<Rightarrow> bool" where
  "always_safe c \<longleftrightarrow>
     c \<in> set ''ABCDEFGHIJKLMNOPQRSTUVWXYZabcdefghijklmnopqrstuvwxyz0123456789_.-~''"

definition hex_digit :: "nat \<Rightarrow> char" where
  "hex_digit n = ''0123456789ABCDEF'' ! (n mod 16)"

definition quoter :: "char \<Rightarrow> string" where
  "quoter c =
     (if always_safe c \<or> c = CHR ''/'' then [c]
      else [CHR ''%'', hex_digit (of_char c div 16), hex_digit (of_char c mod 16)])"

definition quote :: "string \<Rightarrow> string" where
  "quote s = concat (map quoter s)"

text \<open>
  \<^verbatim>\<open>urllib.parse.unquote(s)\<close>: a string without \<^verbatim>\<open>%\<close> is returned as it is.  What the
  library makes of a string with escapes (decoding them, then replacing malformed UTF-8)
  is a parameter of the model.
\<close>

definition unquote :: "(string \<Rightarrow> string) \<Rightarrow> string \<Rightarrow> string" where
  "unquote unquoted_parts s = (if CHR ''%'' \<notin> set s then s else unquoted_parts s)"

section \<open>Tool 1: the visual search\<close>

text \<open>
  One entry of \<^verbatim>\<open>shopping_results\<close>: a dictionary of which the tool reads six keys, each
  present with a string or absent.
\<close>

record item =
  thumbnail :: "string option"
  title :: "string option"
  price :: "string option"
  source :: "string option"
  link :: "string option"
  product_link :: "string option"

text \<open>
  The environment of one \<^verbatim>\<open>VisualSearchTool.execute\<close> call: the value of
  \<^verbatim>\<open>os.getenv("SERPAPI_KEY")\<close> and what \<^verbatim>\<open>GoogleSearch(params).get_dict()\<close> does for
  an API key and a query; a response is the value under \<^verbatim>\<open>"shopping_results"\<close>, if that
  key is there.
\<close>

record search_env =
  getenv_SERPAPI_KEY :: "string option"
  get_dict :: "string \<Rightarrow> string \<Rightarrow> item list option outcome"

text \<open>\<^verbatim>\<open>d.get(key, default)\<close>, and \<^verbatim>\<open>not a\<close>, \<^verbatim>\<open>a or b\<close> on optional strings.\<close>

definition get_or :: "'a \<Rightarrow> 'a option \<Rightarrow> 'a" where
  "get_or dflt v = (case v of None \<Rightarrow> dflt | Some x \<Rightarrow> x)"

definition falsy :: "string option \<Rightarrow> bool" where
  "falsy v \<longleftrightarrow> v = None \<or> v = Some []"

definition py_or :: "string option \<Rightarrow> string option \<Rightarrow> string option" where
  "py_or a b = (if falsy a then b else a)"

text \<open>The f-string appended for one product.\<close>

definition card :: "string \<Rightarrow> string \<Rightarrow> string \<Rightarrow> string \<Rightarrow> string \<Rightarrow> string" where
  \<open>card img title' price' source' encoded_link =
''
            <div class="card">
                <div class="image-container"><img src="'' @ img @ ''" alt="'' @ title' @ ''"></div>
                <div class="meta">
                    <div class="title">'' @ title' @ ''</div>
                    <div class="price">'' @ price' @ ''</div>
                    <div class="store">'' @ source' @ ''</div>
                    <button class="buy-btn" onclick="triggerAutoBuy('' @ [CHR 0x27] @ encoded_link @ [CHR 0x27] @ '')">
                        Auto-Buy '' @ [CHR 0xF0, CHR 0x9F, CHR 0xA4, CHR 0x96] @ ''
                    </button>
                </div>
            </div>
            ''\<close>

text \<open>
  The \<^verbatim>\<open>for p in results\<close> loop, from given values of \<^verbatim>\<open>count\<close> and
  \<^verbatim>\<open>html_output\<close> to their final values.
\<close>

fun cards_loop :: "nat \<Rightarrow> string \<Rightarrow> item list \<Rightarrow> nat \<times> string" where
  "cards_loop count html_output [] = (count, html_output)"
| "cards_loop count html_output (p # ps) =
    (if count \<ge> 6 then (count, html_output)
     else
       let img = get_or [] (thumbnail p);
           title' = get_or ''Unknown'' (title p);
           price' = get_or ''Check Site'' (price p);
           source' = get_or ''Web'' (source p);
           raw_link = py_or (link p) (product_link p)
       in if falsy raw_link then cards_loop count html_output ps
          else cards_loop (count + 1)
                 (html_output @ card img title' price' source' (quote (the raw_link))) ps)"

definition VisualSearchTool_execute :: "search_env \<Rightarrow> string \<Rightarrow> action list \<times> string outcome" where
  "VisualSearchTool_execute env query =
    (let api_key = getenv_SERPAPI_KEY env in
     if falsy api_key then ([], Inr ''<div>Error: SERPAPI_KEY missing.</div>'')
     else
       (case get_dict env (the api_key) query of
          Inl e \<Rightarrow> ([SearchApi (the api_key) query], Inr (''Search Error: '' @ message e))
        | Inr search \<Rightarrow>
            let results = get_or [] search in
            if results = [] then ([SearchApi (the api_key) query], Inr ''No products found.'')
            else ([SearchApi (the api_key) query],
                  Inr (snd (cards_loop 0 ''<div class='grid-container'>'' results) @ ''</div>''))))"

text \<open>
  For stating what the loop produces: an item has a usable link when the loop's
  \<^verbatim>\<open>raw_link\<close> is not falsy for it; its card is the f-string filled from it; the items
  that get a card are the first six with a usable link, in response order.  That the
  loop renders exactly these is proved below (\<open>cards_loop_eq\<close>).
\<close>

definition usable_link :: "item \<Rightarrow> bool" where
  "usable_link p \<longleftrightarrow> \<not> falsy (py_or (link p) (product_link p))"

definition item_card :: "item \<Rightarrow> string" where
  "item_card p =
     card (get_or [] (thumbnail p)) (get_or ''Unknown'' (title p))
          (get_or ''Check Site'' (price p)) (get_or ''Web'' (source p))
          (quote (the (py_or (link p) (product_link p))))"

definition rendered_items :: "item list \<Rightarrow> item list" where
  "rendered_items results = take 6 (filter usable_link results)"

section \<open>Tool 2: resolve and navigate\<close>

subsection \<open>The headless resolver\<close>

text \<open>
  The environment of one \<^verbatim>\<open>resolve_url_headless\<close> call, one field per external call in
  the order of the source: entering \<^verbatim>\<open>async with async_playwright()\<close>, launching the
  headless browser, opening its page, \<^verbatim>\<open>page.goto\<close>, the value of \<^verbatim>\<open>page.url\<close>
  afterwards, \<^verbatim>\<open>link.count()\<close>, \<^verbatim>\<open>link.get_attribute("href")\<close>, the library's
  \<^verbatim>\<open>parse_qs(urlparse(raw).query).get("q", [None])[0]\<close>, the click on the offer row, the
  wait for the new page (leaving \<^verbatim>\<open>expect_page\<close> and awaiting its value),
  \<^verbatim>\<open>new_page.wait_for_load_state\<close>, the value of \<^verbatim>\<open>new_page.url\<close>,
  \<^verbatim>\<open>browser.close()\<close>, and leaving the \<^verbatim>\<open>async with\<close>.
\<close>

record headless_env =
  h_start :: "unit outcome"
  h_launch :: "unit outcome"
  h_new_page :: "unit outcome"
  h_goto :: "string \<Rightarrow> unit outcome"
  h_page_url :: string
  h_anchor_count :: "nat outcome"
  h_anchor_href :: "string option outcome"
  h_query_q :: "string option \<Rightarrow> string option outcome"
  h_offer_row_click :: "unit outcome"
  h_new_page_wait :: "unit outcome"
  h_new_page_load :: "unit outcome"
  h_new_page_url :: string
  h_close :: "unit outcome"
  h_stop :: "unit outcome"

text \<open>
  The inner \<^verbatim>\<open>try\<close> (extraction from the anchor's href): \<open>Some clean\<close> when
  \<^verbatim>\<open>return clean\<close> is reached, \<open>None\<close> when control falls through to the click, also
  after a swallowed exception.
\<close>

definition fast_path :: "headless_env \<Rightarrow> action list \<times> string option" where
  "fast_path env =
    (case h_anchor_count env of
       Inl e \<Rightarrow> ([AnchorCount], None)
     | Inr n \<Rightarrow>
         if n > 0 then
           (case h_anchor_href env of
              Inl e \<Rightarrow> ([AnchorCount, AnchorHref], None)
            | Inr raw \<Rightarrow>
                (case h_query_q env raw of
                   Inl e \<Rightarrow> ([AnchorCount, AnchorHref], None)
                 | Inr clean \<Rightarrow>
                     if falsy clean then ([AnchorCount, AnchorHref], None)
                     else ([AnchorCount, AnchorHref], clean)))
         else ([AnchorCount], None))"

text \<open>The fallback: click the offer row and take the URL of the page that opens.\<close>

definition slow_path :: "headless_env \<Rightarrow> action list \<times> string outcome" where
  "slow_path env =
    (case h_offer_row_click env of
       Inl e \<Rightarrow> ([OfferRowClick], Inl e)
     | Inr _ \<Rightarrow>
         (case h_new_page_wait env of
            Inl e \<Rightarrow> ([OfferRowClick, NewPageWait], Inl e)
          | Inr _ \<Rightarrow>
              (case h_new_page_load env of
                 Inl e \<Rightarrow> ([OfferRowClick, NewPageWait, NewPageLoad], Inl e)
               | Inr _ \<Rightarrow> ([OfferRowClick, NewPageWait, NewPageLoad], Inr (h_new_page_url env)))))"

text \<open>The body of the outer \<^verbatim>\<open>try\<close>.\<close>

definition resolve_try :: "headless_env \<Rightarrow> string \<Rightarrow> action list \<times> string outcome" where
  "resolve_try env dirty_url =
    (case h_goto env dirty_url of
       Inl e \<Rightarrow> ([HeadlessGoto dirty_url], Inl e)
     | Inr _ \<Rightarrow>
         if py_in ''google.com'' (h_page_url env) then
           (case fast_path env of
              (tr, Some clean) \<Rightarrow> (HeadlessGoto dirty_url # tr, Inr clean)
            | (tr, None) \<Rightarrow>
                (case slow_path env of
                   (tr', r) \<Rightarrow> (HeadlessGoto dirty_url # tr @ tr', r)))
         else ([HeadlessGoto dirty_url], Inr (h_page_url env)))"

text \<open>
  \<^verbatim>\<open>try ... except: return dirty_url ... finally: await browser.close()\<close>: an exception
  of \<^verbatim>\<open>browser.close()\<close> replaces the value being returned.
\<close>

definition resolve_try_finally :: "headless_env \<Rightarrow> string \<Rightarrow> action list \<times> string outcome" where
  "resolve_try_finally env dirty_url =
    (case resolve_try env dirty_url of
       (tr, r) \<Rightarrow>
         let returned = (case r of Inl e \<Rightarrow> dirty_url | Inr u \<Rightarrow> u) in
         (case h_close env of
            Inl e \<Rightarrow> (tr @ [HeadlessClose], Inl e)
          | Inr _ \<Rightarrow> (tr @ [HeadlessClose], Inr returned)))"

text \<open>The body of the \<^verbatim>\<open>async with\<close>: launch and \<^verbatim>\<open>new_page\<close> come before the \<^verbatim>\<open>try\<close>.\<close>

definition resolve_body :: "headless_env \<Rightarrow> string \<Rightarrow> action list \<times> string outcome" where
  "resolve_body env dirty_url =
    (case h_launch env of
       Inl e \<Rightarrow> ([HeadlessLaunch], Inl e)
     | Inr _ \<Rightarrow>
         (case h_new_page env of
            Inl e \<Rightarrow> ([HeadlessLaunch, HeadlessNewPage], Inl e)
          | Inr _ \<Rightarrow>
              (case resolve_try_finally env dirty_url of
                 (tr, r) \<Rightarrow> (HeadlessLaunch # HeadlessNewPage # tr, r))))"

definition resolve_url_headless :: "headless_env \<Rightarrow> string \<Rightarrow> action list \<times> string outcome" where
  "resolve_url_headless env dirty_url =
    (case h_start env of
       Inl e \<Rightarrow> ([HeadlessStart], Inl e)
     | Inr _ \<Rightarrow>
         (case resolve_body env dirty_url of
            (tr, r) \<Rightarrow>
              (case h_stop env of
                 Inl e \<Rightarrow> (HeadlessStart # tr @ [HeadlessStop], Inl e)
               | Inr _ \<Rightarrow> (HeadlessStart # tr @ [HeadlessStop], r))))"

subsection \<open>The navigator\<close>

text \<open>
  The environment of one \<^verbatim>\<open>NavigateTool.execute\<close> call: the library's decoding of
  escapes, the environment of the resolver, and the calls on the visible session:
  \<^verbatim>\<open>async_playwright().start()\<close>, \<^verbatim>\<open>chromium.launch\<close>, \<^verbatim>\<open>new_context\<close>,
  \<^verbatim>\<open>new_page\<close> (the three handles are what these return), \<^verbatim>\<open>page.goto\<close> and the click
  on "Accept".
\<close>

record navigate_env =
  unquoted_parts :: "string \<Rightarrow> string"
  headless :: headless_env
  v_start :: "nat outcome"
  v_launch :: "nat outcome"
  v_new_context :: "unit outcome"
  v_new_page :: "nat outcome"
  v_goto :: "string \<Rightarrow> unit outcome"
  v_click_accept :: "unit outcome"

text \<open>
  The block under \<^verbatim>\<open>if SHARED_BROWSER_STATE["playwright"] is None\<close>.  Each handle is
  stored as soon as its call has returned, so an exception leaves the handles stored so
  far.
\<close>

definition launch_visible ::
  "navigate_env \<Rightarrow> shared_browser_state \<Rightarrow> shared_browser_state \<times> action list \<times> unit outcome" where
  "launch_visible env st =
    (if playwright st = None then
       (case v_start env of
          Inl e \<Rightarrow> (st, [VisibleStart], Inl e)
        | Inr p \<Rightarrow>
            (case v_launch env of
               Inl e \<Rightarrow> (st\<lparr>playwright := Some p\<rparr>, [VisibleStart, VisibleLaunch], Inl e)
             | Inr b \<Rightarrow>
                 (case v_new_context env of
                    Inl e \<Rightarrow>
                      (st\<lparr>playwright := Some p, browser := Some b\<rparr>,
                       [VisibleStart, VisibleLaunch, VisibleNewContext], Inl e)
                  | Inr _ \<Rightarrow>
                      (case v_new_page env of
                         Inl e \<Rightarrow>
                           (st\<lparr>playwright := Some p, browser := Some b\<rparr>,
                            [VisibleStart, VisibleLaunch, VisibleNewContext, VisibleNewPage], Inl e)
                       | Inr pg \<Rightarrow>
                           (st\<lparr>playwright := Some p, browser := Some b, page := Some pg\<rparr>,
                            [VisibleStart, VisibleLaunch, VisibleNewContext, VisibleNewPage],
                            Inr ())))))
     else (st, [], Inr ()))"

text \<open>
  The final \<^verbatim>\<open>try\<close> on the stored page.  With \<^verbatim>\<open>None\<close> stored, \<^verbatim>\<open>page.goto\<close> is an
  \<^verbatim>\<open>AttributeError\<close>, caught like any other.  The click on "Accept" is attempted and its
  exception swallowed.
\<close>

definition load_page :: "navigate_env \<Rightarrow> nat option \<Rightarrow> string \<Rightarrow> action list \<times> string outcome" where
  "load_page env pg clean_url =
    (case pg of
       None \<Rightarrow>
         ([], Inr (''Navigation Error: '' @ [CHR 0x27] @
                   ''NoneType' object has no attribute 'goto'' @ [CHR 0x27]))
     | Some h \<Rightarrow>
         (case v_goto env clean_url of
            Inl e \<Rightarrow> ([Goto h clean_url], Inr (''Navigation Error: '' @ message e))
          | Inr _ \<Rightarrow>
              ([Goto h clean_url, ClickAccept h],
               Inr ([CHR 0xE2, CHR 0x9C, CHR 0x85] @ '' Browser Opened. Navigated to: '' @ clean_url))))"

definition NavigateTool_execute ::
  "navigate_env \<Rightarrow> shared_browser_state \<Rightarrow> string \<Rightarrow>
   shared_browser_state \<times> action list \<times> string outcome" where
  "NavigateTool_execute env st url =
    (let decoded_url = unquote (unquoted_parts env) url in
     case (if py_in ''google.com'' decoded_url
           then resolve_url_headless (headless env) decoded_url
           else ([], Inr decoded_url)) of
       (tr1, Inl e) \<Rightarrow> (st, tr1, Inl e)
     | (tr1, Inr clean_url) \<Rightarrow>
         (case launch_visible env st of
            (st', tr2, Inl e) \<Rightarrow> (st', tr1 @ tr2, Inl e)
          | (st', tr2, Inr _) \<Rightarrow>
              (case load_page env (page st') clean_url of
                 (tr3, r) \<Rightarrow> (st', tr1 @ tr2 @ tr3, r))))"

subsection \<open>Kinds of actions\<close>

text \<open>
  The actions of the throwaway headless session, and the four calls that create the
  visible session.
\<close>

fun is_headless_action :: "action \<Rightarrow> bool" where
  "is_headless_action HeadlessStart = True"
| "is_headless_action HeadlessLaunch = True"
| "is_headless_action HeadlessNewPage = True"
| "is_headless_action (HeadlessGoto u) = True"
| "is_headless_action AnchorCount = True"
| "is_headless_action AnchorHref = True"
| "is_headless_action OfferRowClick = True"
| "is_headless_action NewPageWait = True"
| "is_headless_action NewPageLoad = True"
| "is_headless_action HeadlessClose = True"
| "is_headless_action HeadlessStop = True"
| "is_headless_action a = False"

fun is_session_launch :: "action \<Rightarrow> bool" where
  "is_session_launch VisibleStart = True"
| "is_session_launch VisibleLaunch = True"
| "is_session_launch VisibleNewContext = True"
| "is_session_launch VisibleNewPage = True"
| "is_session_launch a = False"

section \<open>Tool 3: the clicker\<close>

text \<open>
  The environment of one \<^verbatim>\<open>AddToCartTool.execute\<close> call: what
  \<^verbatim>\<open>page.locator(selector).first.is_visible()\<close> and
  \<^verbatim>\<open>page.locator(selector).first.click(force=True)\<close> do for each selector.
\<close>

record cart_env =
  is_visible :: "string \<Rightarrow> bool outcome"
  click :: "string \<Rightarrow> unit outcome"

definition selectors :: "string list" where
  "selectors =
    [''#add-to-cart-button'', ''#add-to-cart-button-ubb'',
     ''[data-automation-id='add-to-cart']'', ''button[name='add']'',
     ''button:has-text('Add to Cart')'', ''button:has-text('Add to Bag')'',
     ''form[action*='/cart/add'] button'', ''.add-to-cart'']"

text \<open>
  The \<^verbatim>\<open>for selector in selectors\<close> loop on page \<open>h\<close>; the result is the final value
  of \<^verbatim>\<open>clicked\<close>, or the exception that left the loop.
\<close>

fun click_first_visible :: "cart_env \<Rightarrow> nat \<Rightarrow> string list \<Rightarrow> action list \<times> bool outcome" where
  "click_first_visible env h [] = ([], Inr False)"
| "click_first_visible env h (selector # rest) =
    (case is_visible env selector of
       Inl e \<Rightarrow> ([IsVisible h selector], Inl e)
     | Inr True \<Rightarrow>
         (case click env selector of
            Inl e \<Rightarrow> ([IsVisible h selector, Click h selector], Inl e)
          | Inr _ \<Rightarrow> ([IsVisible h selector, Click h selector], Inr True))
     | Inr False \<Rightarrow>
         (case click_first_visible env h rest of
            (tr, r) \<Rightarrow> (IsVisible h selector # tr, r)))"

definition AddToCartTool_execute ::
  "cart_env \<Rightarrow> shared_browser_state \<Rightarrow> shared_browser_state \<times> action list \<times> string outcome" where
  "AddToCartTool_execute env st =
    (case page st of
       None \<Rightarrow> (st, [], Inr ''Error: No browser open.'')
     | Some h \<Rightarrow>
         (case click_first_visible env h selectors of
            (tr, Inl e) \<Rightarrow> (st, tr, Inr (''Click Error: '' @ message e))
          | (tr, Inr clicked) \<Rightarrow>
              if \<not> clicked
              then (st, tr, Inr ([CHR 0xE2, CHR 0x9D, CHR 0x8C] @
                                 '' FAILED: Could not find 'Add to Cart' button.''))
              else (st, tr @ [Sleep 5], Inr ''Success: Item added to cart.'')))"

section \<open>Concrete environments and states\<close>

text \<open>
  The situations the properties below are evaluated on.  First a session as a successful
  first navigation leaves it, and a page whose only add-to-cart control is the button
  with the text "Add to Bag".
\<close>

definition open_session :: shared_browser_state where
  "open_session = \<lparr>playwright = Some 0, browser = Some 1, page = Some 2\<rparr>"

definition add_to_bag_page :: cart_env where
  "add_to_bag_page =
     \<lparr>is_visible = \<lambda>s. Inr (s = ''button:has-text('Add to Bag')''), click = \<lambda>s. Inr ()\<rparr>"

text \<open>
  A search response of eight items, the third without any link, and an environment that
  has an API key and returns that response.
\<close>

definition sneaker :: "string \<Rightarrow> string option \<Rightarrow> item" where
  "sneaker name l =
     \<lparr>thumbnail = Some ''https://img.example/t.png'', title = Some name, price = Some ''$59.99'',
      source = Some ''Shop'', link = None, product_link = l\<rparr>"

definition red_sneakers_results :: "item list" where
  "red_sneakers_results =
     [sneaker ''A'' (Some ''https://shop.example/item/1''),
      sneaker ''B'' (Some ''https://shop.example/item/2''),
      sneaker ''C'' None,
      sneaker ''D'' (Some ''https://shop.example/item/4''),
      sneaker ''E'' (Some ''https://shop.example/item/5''),
      sneaker ''F'' (Some ''https://shop.example/item/6''),
      sneaker ''G'' (Some ''https://shop.example/item/7''),
      sneaker ''H'' (Some ''https://shop.example/item/8'')]"

definition red_sneakers_env :: search_env where
  "red_sneakers_env =
     \<lparr>getenv_SERPAPI_KEY = Some ''key'', get_dict = \<lambda>k q. Inr (Some red_sneakers_results)\<rparr>"

text \<open>
  A headless session in which every call returns, no anchor is found and the offer-row
  click opens the shop's page; \<open>page_url\<close> is the URL of the page after navigation.
  Then the same with \<^verbatim>\<open>new_page\<close> raising, with \<^verbatim>\<open>page.goto\<close> timing out, and with a
  page that ends on the search engine and has an anchor whose href carries the target
  (for which the library's query parsing gives the target).
\<close>

definition headless_ok :: "string \<Rightarrow> headless_env" where
  "headless_ok page_url =
     \<lparr>h_start = Inr (), h_launch = Inr (), h_new_page = Inr (), h_goto = \<lambda>u. Inr (),
      h_page_url = page_url, h_anchor_count = Inr 0, h_anchor_href = Inr None,
      h_query_q = \<lambda>raw. Inr None, h_offer_row_click = Inr (), h_new_page_wait = Inr (),
      h_new_page_load = Inr (), h_new_page_url = ''https://shop.example/item/42'',
      h_close = Inr (), h_stop = Inr ()\<rparr>"

definition new_page_fails :: headless_env where
  "new_page_fails =
     (headless_ok ''about:blank'')
       \<lparr>h_new_page := Inl (Raised ''Browser.new_page: Target page, context or browser has been closed'')\<rparr>"

definition navigation_times_out :: headless_env where
  "navigation_times_out =
     (headless_ok ''about:blank'')
       \<lparr>h_goto := \<lambda>u. Inl (Raised ''Page.goto: Timeout 30000ms exceeded.'')\<rparr>"


text \<open>
  A navigation in which every call on the visible session returns (handles 0, 1, 2) and
  no "Accept" control shows up; the decoding of escapes is never consulted, the URLs
  used with it have none.  Then a machine without the browser executable, where both
  launches raise, and the state the first navigation leaves there.
\<close>

definition navigate_ok :: "headless_env \<Rightarrow> navigate_env" where
  "navigate_ok h =
     \<lparr>unquoted_parts = \<lambda>s. s, headless = h, v_start = Inr 0, v_launch = Inr 1,
      v_new_context = Inr (), v_new_page = Inr 2, v_goto = \<lambda>u. Inr (),
      v_click_accept = Inl (Raised ''Locator.click: Timeout 2000ms exceeded.'')\<rparr>"

definition chromium_missing :: navigate_env where
  "chromium_missing =
     (navigate_ok ((headless_ok ''about:blank'')
        \<lparr>h_launch := Inl (Raised ''BrowserType.launch: Executable doesn't exist'')\<rparr>))
       \<lparr>v_launch := Inl (Raised ''BrowserType.launch: Executable doesn't exist'')\<rparr>"

definition partial_session :: shared_browser_state where
  "partial_session = \<lparr>playwright = Some 0, browser = None, page = None\<rparr>"

section \<open>Properties of the clicker\<close>

text \<open>
  C8.  With no page in the shared state (no navigation has happened),
  \<^verbatim>\<open>AddToCartTool.execute\<close> returns the string "Error: No browser open.", performs no
  external call at all (so no visibility probe and no click), and leaves the shared state
  as it was.
\<close>

theorem add_to_cart_no_browser:
  assumes "page st = None"
  shows "AddToCartTool_execute env st = (st, [], Inr ''Error: No browser open.'')"
  using assms by (simp add: AddToCartTool_execute_def)

theorem add_to_cart_no_browser_witness:
  "page SHARED_BROWSER_STATE = None \<and>
   AddToCartTool_execute \<lparr>is_visible = \<lambda>s. Inr True, click = \<lambda>s. Inr ()\<rparr> SHARED_BROWSER_STATE
     = (SHARED_BROWSER_STATE, [], Inr ''Error: No browser open.'')"
proof -
  have h: "page SHARED_BROWSER_STATE = None"
    by (simp add: SHARED_BROWSER_STATE_def)
  show ?thesis
    using h add_to_cart_no_browser [OF h, of "\<lparr>is_visible = \<lambda>s. Inr True, click = \<lambda>s. Inr ()\<rparr>"]
    by simp
qed

text \<open>
  The loop probes the selectors in list order and stops at the first visible one: when
  the selector at index \<open>i\<close> is visible and all before it are not, the trace is the
  probes of the first \<open>i + 1\<close> selectors followed by one click, on selector \<open>i\<close>.
\<close>

lemma click_first_visible_at:
  "i < length ss \<Longrightarrow> is_visible env (ss ! i) = Inr True \<Longrightarrow>
   (\<forall>j<i. is_visible env (ss ! j) = Inr False) \<Longrightarrow>
   click_first_visible env h ss =
     (map (IsVisible h) (take (Suc i) ss) @ [Click h (ss ! i)],
      case click env (ss ! i) of Inl e \<Rightarrow> Inl e | Inr _ \<Rightarrow> Inr True)"
proof (induction ss arbitrary: i)
  case Nil
  then show ?case by simp
next
  case (Cons s ss)
  show ?case
  proof (cases i)
    case 0
    with Cons.prems show ?thesis by (simp split: sum.splits)
  next
    case (Suc k)
    with Cons.prems have k: "k < length ss" "is_visible env (ss ! k) = Inr True"
      by simp_all
    from Cons.prems Suc have hid: "\<forall>j<k. is_visible env (ss ! j) = Inr False"
      by (metis Suc_less_eq nth_Cons_Suc)
    from Cons.prems Suc have s: "is_visible env s = Inr False"
      by (metis nth_Cons_0 zero_less_Suc)
    show ?thesis
      using Cons.IH [OF k hid] s Suc by simp
  qed
qed

text \<open>
  C7.  \<^verbatim>\<open>AddToCartTool.execute\<close> probes its selectors in the fixed order of the list;
  when selector \<open>i\<close> is the first visible one, it probes selectors \<open>0..i\<close>, clicks
  selector \<open>i\<close> and nothing else, and (the click not raising) sleeps and reports
  success; a raising click is reported as "Click Error".  The sixth selector of the list
  (index 5) is \<^verbatim>\<open>button:has-text('Add to Bag')\<close>, so a page showing only that control is
  matched there.
\<close>

theorem add_to_cart_priority_order:
  assumes "page st = Some h"
    and "i < length selectors"
    and "is_visible env (selectors ! i) = Inr True"
    and "\<forall>j<i. is_visible env (selectors ! j) = Inr False"
  shows "selectors ! 5 = ''button:has-text('Add to Bag')'' \<and>
    AddToCartTool_execute env st =
      (case click env (selectors ! i) of
         Inl e \<Rightarrow> (st, map (IsVisible h) (take (Suc i) selectors) @ [Click h (selectors ! i)],
                   Inr (''Click Error: '' @ message e))
       | Inr _ \<Rightarrow> (st, map (IsVisible h) (take (Suc i) selectors) @ [Click h (selectors ! i), Sleep 5],
                   Inr ''Success: Item added to cart.''))"
proof -
  have "selectors ! 5 = ''button:has-text('Add to Bag')''"
    by (simp add: selectors_def)
  moreover have "AddToCartTool_execute env st =
      (case click env (selectors ! i) of
         Inl e \<Rightarrow> (st, map (IsVisible h) (take (Suc i) selectors) @ [Click h (selectors ! i)],
                   Inr (''Click Error: '' @ message e))
       | Inr _ \<Rightarrow> (st, map (IsVisible h) (take (Suc i) selectors) @ [Click h (selectors ! i), Sleep 5],
                   Inr ''Success: Item added to cart.''))"
    using assms(1) click_first_visible_at [OF assms(2,3,4), of h]
    by (simp add: AddToCartTool_execute_def split: sum.splits)
  ultimately show ?thesis by simp
qed

theorem add_to_cart_priority_order_witness:
  "AddToCartTool_execute add_to_bag_page open_session =
     (open_session,
      [IsVisible 2 ''#add-to-cart-button'', IsVisible 2 ''#add-to-cart-button-ubb'',
       IsVisible 2 ''[data-automation-id='add-to-cart']'', IsVisible 2 ''button[name='add']'',
       IsVisible 2 ''button:has-text('Add to Cart')'', IsVisible 2 ''button:has-text('Add to Bag')'',
       Click 2 ''button:has-text('Add to Bag')'', Sleep 5],
      Inr ''Success: Item added to cart.'')"
proof -
  have p: "page open_session = Some 2"
    by (simp add: open_session_def)
  have i: "5 < length selectors"
    by (simp add: selectors_def)
  have v: "is_visible add_to_bag_page (selectors ! 5) = Inr True"
    by (simp add: selectors_def add_to_bag_page_def)
  have hid: "\<forall>j<5. is_visible add_to_bag_page (selectors ! j) = Inr False"
  proof (intro allI impI)
    fix j :: nat assume "j < 5"
    then have "j = 0 \<or> j = 1 \<or> j = 2 \<or> j = 3 \<or> j = 4" by arith
    then show "is_visible add_to_bag_page (selectors ! j) = Inr False"
      by (auto simp: selectors_def add_to_bag_page_def)
  qed
  show ?thesis
    using add_to_cart_priority_order [OF p i v hid]
    by (simp add: selectors_def add_to_bag_page_def)
qed

section \<open>Properties of the visual search\<close>

text \<open>
  The loop, started with any \<^verbatim>\<open>count\<close> and \<^verbatim>\<open>html_output\<close>, appends the cards of the
  first \<open>6 - count\<close> items with a usable link and adds their number to \<^verbatim>\<open>count\<close>.
\<close>

lemma cards_loop_eq:
  "cards_loop count html ps =
     (count + length (take (6 - count) (filter usable_link ps)),
      html @ concat (map item_card (take (6 - count) (filter usable_link ps))))"
proof (induction ps arbitrary: count html)
  case Nil
  show ?case by simp
next
  case (Cons p ps)
  show ?case
  proof (cases "count \<ge> 6")
    case True
    then show ?thesis by simp
  next
    case False
    then have c: "6 - count = Suc (6 - (count + 1))" by arith
    show ?thesis
    proof (cases "usable_link p")
      case True
      with False show ?thesis
        using Cons.IH [of "count + 1"]
        by (simp add: Let_def usable_link_def item_card_def c del: One_nat_def)
    next
      case False
      with \<open>\<not> 6 \<le> count\<close> show ?thesis
        using Cons.IH [of count]
        by (simp add: Let_def usable_link_def)
    qed
  qed
qed

lemma execute_fragment:
  assumes "\<not> falsy (getenv_SERPAPI_KEY env)"
    and "get_dict env (the (getenv_SERPAPI_KEY env)) query = Inr (Some results)"
    and "results \<noteq> []"
  shows "VisualSearchTool_execute env query =
     ([SearchApi (the (getenv_SERPAPI_KEY env)) query],
      Inr (''<div class='grid-container'>'' @
           concat (map item_card (rendered_items results)) @ ''</div>''))"
  using assms
  by (simp add: VisualSearchTool_execute_def Let_def get_or_def cards_loop_eq rendered_items_def)




text \<open>
  C5.  Under the same conditions, every item that has a card in the returned fragment is
  an item of the response with a usable link; an item with neither a \<^verbatim>\<open>link\<close> nor a
  \<^verbatim>\<open>product_link\<close> field is never among the rendered items.
\<close>

theorem visual_search_cards_have_links:
  assumes "\<not> falsy (getenv_SERPAPI_KEY env)"
    and "get_dict env (the (getenv_SERPAPI_KEY env)) query = Inr (Some results)"
    and "results \<noteq> []"
  shows "snd (VisualSearchTool_execute env query) =
       Inr (''<div class='grid-container'>'' @
            concat (map item_card (rendered_items results)) @ ''</div>'') \<and>
     set (rendered_items results) \<subseteq> {p \<in> set results. usable_link p} \<and>
     (\<forall>p. link p = None \<and> product_link p = None \<longrightarrow> p \<notin> set (rendered_items results))"
proof -
  have 1: "snd (VisualSearchTool_execute env query) =
       Inr (''<div class='grid-container'>'' @
            concat (map item_card (rendered_items results)) @ ''</div>'')"
    using execute_fragment [OF assms] by simp
  have 2: "set (rendered_items results) \<subseteq> {p \<in> set results. usable_link p}"
    using set_take_subset [of 6 "filter usable_link results"]
    by (auto simp: rendered_items_def)
  have 3: "\<forall>p. link p = None \<and> product_link p = None \<longrightarrow> p \<notin> set (rendered_items results)"
  proof (intro allI impI)
    fix p :: item
    assume "link p = None \<and> product_link p = None"
    then have "\<not> usable_link p"
      by (simp add: usable_link_def py_or_def falsy_def)
    with 2 show "p \<notin> set (rendered_items results)" by blast
  qed
  from 1 2 3 show ?thesis by blast
qed

theorem visual_search_cards_have_links_witness:
  "sneaker ''C'' None \<in> set red_sneakers_results \<and>
   sneaker ''C'' None \<notin> set (rendered_items red_sneakers_results) \<and>
   set (rendered_items red_sneakers_results) \<subseteq> {p \<in> set red_sneakers_results. usable_link p} \<and>
   snd (VisualSearchTool_execute red_sneakers_env ''red sneakers'') =
     Inr (''<div class='grid-container'>'' @
          concat (map item_card (rendered_items red_sneakers_results)) @ ''</div>'')"
proof -
  have k: "\<not> falsy (getenv_SERPAPI_KEY red_sneakers_env)"
    by (simp add: red_sneakers_env_def falsy_def)
  have r: "get_dict red_sneakers_env (the (getenv_SERPAPI_KEY red_sneakers_env)) ''red sneakers''
             = Inr (Some red_sneakers_results)"
    by (simp add: red_sneakers_env_def)
  have n: "red_sneakers_results \<noteq> []"
    by (simp add: red_sneakers_results_def)
  have c: "sneaker ''C'' None \<in> set red_sneakers_results"
    by (simp add: red_sneakers_results_def)
  have f: "link (sneaker ''C'' None) = None \<and> product_link (sneaker ''C'' None) = None"
    by (simp add: sneaker_def)
  show ?thesis
    using visual_search_cards_have_links [OF k r n] c f by blast
qed

section \<open>Properties of the headless resolver\<close>

text \<open>
  No step inside the \<^verbatim>\<open>try\<close> closes the browser; with \<^verbatim>\<open>browser.close()\<close> returning,
  the \<^verbatim>\<open>try/except/finally\<close> returns the extracted URL or, after any exception, the
  input; with the session opening and closing normally, the whole function is the
  \<^verbatim>\<open>try\<close> body between the three opening and the two closing actions.
\<close>

lemma fast_path_no_close: "HeadlessClose \<notin> set (fst (fast_path env))"
  by (simp add: fast_path_def split: sum.splits)

lemma slow_path_no_close: "HeadlessClose \<notin> set (fst (slow_path env))"
  by (simp add: slow_path_def split: sum.splits)

lemma resolve_try_no_close: "HeadlessClose \<notin> set (fst (resolve_try env d))"
  using fast_path_no_close [of env] slow_path_no_close [of env]
  by (auto simp: resolve_try_def split: sum.splits prod.splits option.splits)

lemma resolve_try_finally_eq:
  "h_close env = Inr () \<Longrightarrow>
   resolve_try_finally env d =
     (fst (resolve_try env d) @ [HeadlessClose],
      Inr (case snd (resolve_try env d) of Inl e \<Rightarrow> d | Inr u \<Rightarrow> u))"
  by (simp add: resolve_try_finally_def split: prod.splits)

lemma resolve_url_headless_eq:
  assumes "h_start env = Inr ()" "h_launch env = Inr ()" "h_new_page env = Inr ()"
    and "h_close env = Inr ()" "h_stop env = Inr ()"
  shows "resolve_url_headless env d =
     ([HeadlessStart, HeadlessLaunch, HeadlessNewPage] @ fst (resolve_try env d) @
        [HeadlessClose, HeadlessStop],
      Inr (case snd (resolve_try env d) of Inl e \<Rightarrow> d | Inr u \<Rightarrow> u))"
  using assms
  by (simp add: resolve_url_headless_def resolve_body_def resolve_try_finally_eq)

text \<open>
  C1 (as amended).  When entering the Playwright scope, launching the headless browser
  and opening its page succeed, and neither \<^verbatim>\<open>browser.close()\<close> nor leaving the scope
  raises, then \<^verbatim>\<open>resolve_url_headless\<close> returns a URL and raises nothing; when
  \<^verbatim>\<open>page.goto\<close> fails, and when any later step of the \<^verbatim>\<open>try\<close> block raises, it returns
  the input URL unchanged; and \<^verbatim>\<open>browser.close()\<close> is called exactly once, after all
  page actions and just before the scope is left.
\<close>

theorem resolve_falls_back_to_input:
  assumes "h_start env = Inr ()" "h_launch env = Inr ()" "h_new_page env = Inr ()"
    and "h_close env = Inr ()" "h_stop env = Inr ()"
  shows "(\<exists>u. snd (resolve_url_headless env d) = Inr u) \<and>
    ((\<exists>e. h_goto env d = Inl e) \<longrightarrow>
       resolve_url_headless env d =
         ([HeadlessStart, HeadlessLaunch, HeadlessNewPage, HeadlessGoto d,
           HeadlessClose, HeadlessStop], Inr d)) \<and>
    ((\<exists>e. snd (resolve_try env d) = Inl e) \<longrightarrow> snd (resolve_url_headless env d) = Inr d) \<and>
    (\<exists>tr. fst (resolve_url_headless env d) =
            [HeadlessStart, HeadlessLaunch, HeadlessNewPage] @ tr @ [HeadlessClose, HeadlessStop] \<and>
          HeadlessClose \<notin> set tr)"
proof -
  note eq = resolve_url_headless_eq [OF assms, of d]
  have 1: "\<exists>u. snd (resolve_url_headless env d) = Inr u"
    by (simp add: eq)
  have 2: "(\<exists>e. h_goto env d = Inl e) \<longrightarrow>
       resolve_url_headless env d =
         ([HeadlessStart, HeadlessLaunch, HeadlessNewPage, HeadlessGoto d,
           HeadlessClose, HeadlessStop], Inr d)"
    by (auto simp: eq resolve_try_def)
  have 3: "(\<exists>e. snd (resolve_try env d) = Inl e) \<longrightarrow> snd (resolve_url_headless env d) = Inr d"
    by (auto simp: eq)
  have 4: "\<exists>tr. fst (resolve_url_headless env d) =
            [HeadlessStart, HeadlessLaunch, HeadlessNewPage] @ tr @ [HeadlessClose, HeadlessStop] \<and>
          HeadlessClose \<notin> set tr"
    using resolve_try_no_close [of env d] by (auto simp: eq)
  from 1 2 3 4 show ?thesis by blast
qed

theorem resolve_falls_back_to_input_witness:
  "resolve_url_headless navigation_times_out ''https://www.google.com/aclk?sa=l'' =
     ([HeadlessStart, HeadlessLaunch, HeadlessNewPage,
       HeadlessGoto ''https://www.google.com/aclk?sa=l'', HeadlessClose, HeadlessStop],
      Inr ''https://www.google.com/aclk?sa=l'')"
proof -
  have a: "h_start navigation_times_out = Inr ()" "h_launch navigation_times_out = Inr ()"
    "h_new_page navigation_times_out = Inr ()" "h_close navigation_times_out = Inr ()"
    "h_stop navigation_times_out = Inr ()"
    by (simp_all add: navigation_times_out_def headless_ok_def)
  have g: "\<exists>e. h_goto navigation_times_out ''https://www.google.com/aclk?sa=l'' = Inl e"
    by (simp add: navigation_times_out_def headless_ok_def)
  show ?thesis
    using resolve_falls_back_to_input [OF a, of "''https://www.google.com/aclk?sa=l''"] g
    by blast
qed

text \<open>
  Without those conditions C1 fails: launch and \<^verbatim>\<open>new_page\<close> stand before the \<^verbatim>\<open>try\<close>.
  When \<^verbatim>\<open>new_page\<close> raises after a successful launch, the exception reaches the caller
  and \<^verbatim>\<open>browser.close()\<close> is never called; only the Playwright scope is left.
\<close>

theorem resolve_propagates_new_page_failure:
  "resolve_url_headless new_page_fails ''https://www.google.com/aclk?sa=l'' =
     ([HeadlessStart, HeadlessLaunch, HeadlessNewPage, HeadlessStop],
      Inl (Raised ''Browser.new_page: Target page, context or browser has been closed''))"
  by (simp add: resolve_url_headless_def resolve_body_def new_page_fails_def headless_ok_def)




section \<open>Properties of the navigator\<close>

text \<open>
  The resolver's trace consists of headless actions and starts with entering the
  Playwright scope; the lazy launch does nothing once a playwright handle is stored,
  launches at most one browser, and stores what it has created; the load acts on the
  stored page only.
\<close>

lemma fast_path_headless: "list_all is_headless_action (fst (fast_path env))"
  by (simp add: fast_path_def split: sum.splits)

lemma slow_path_headless: "list_all is_headless_action (fst (slow_path env))"
  by (simp add: slow_path_def split: sum.splits)

lemma resolve_try_headless: "list_all is_headless_action (fst (resolve_try env d))"
  using fast_path_headless [of env] slow_path_headless [of env]
  by (auto simp: resolve_try_def split: sum.splits prod.splits option.splits)

lemma resolve_try_finally_headless: "list_all is_headless_action (fst (resolve_try_finally env d))"
  using resolve_try_headless [of env d]
  by (auto simp: resolve_try_finally_def Let_def split: sum.splits prod.splits)

lemma resolve_body_headless: "list_all is_headless_action (fst (resolve_body env d))"
  using resolve_try_finally_headless [of env d]
  by (auto simp: resolve_body_def split: sum.splits prod.splits)

lemma resolve_headless: "list_all is_headless_action (fst (resolve_url_headless env d))"
  using resolve_body_headless [of env d]
  by (auto simp: resolve_url_headless_def split: sum.splits prod.splits)


lemma launch_visible_initialized:
  "playwright st \<noteq> None \<Longrightarrow> launch_visible env st = (st, [], Inr ())"
  by (cases "playwright st") (simp_all add: launch_visible_def)

lemma launch_visible_trace:
  "list_all (\<lambda>a. \<not> is_headless_action a) (fst (snd (launch_visible env st))) \<and>
   list_all (\<lambda>a. \<forall>h u. a \<noteq> Goto h u) (fst (snd (launch_visible env st))) \<and>
   length (filter (\<lambda>a. a = VisibleLaunch) (fst (snd (launch_visible env st)))) \<le> 1"
  by (simp add: launch_visible_def split: sum.splits)

lemma launch_visible_stores:
  "VisibleLaunch \<in> set (fst (snd (launch_visible env st))) \<Longrightarrow>
   playwright (fst (launch_visible env st)) \<noteq> None"
  by (simp add: launch_visible_def split: sum.splits if_splits)

lemma launch_visible_done:
  "snd (snd (launch_visible env st)) = Inr x \<Longrightarrow>
   playwright st = None \<Longrightarrow>
   playwright (fst (launch_visible env st)) \<noteq> None \<and> page (fst (launch_visible env st)) \<noteq> None"
  by (simp add: launch_visible_def split: sum.splits if_splits)

lemma load_page_trace:
  "list_all (\<lambda>a. \<not> is_headless_action a \<and> \<not> is_session_launch a \<and>
              (\<forall>h u. a = Goto h u \<longrightarrow> pg = Some h \<and> u = clean_url))
     (fst (load_page env pg clean_url))"
  by (simp add: load_page_def split: option.splits sum.splits)


text \<open>\<^verbatim>\<open>NavigateTool.execute\<close> in terms of its three stages: resolution, the lazy launch, the load.\<close>

lemma execute_unfold:
  "NavigateTool_execute env st url =
    (let decoded_url = unquote (unquoted_parts env) url;
         res = (if py_in ''google.com'' decoded_url
                then resolve_url_headless (headless env) decoded_url
                else ([], Inr decoded_url));
         lv = launch_visible env st
     in case snd res of
          Inl e \<Rightarrow> (st, fst res, Inl e)
        | Inr clean_url \<Rightarrow>
            (case snd (snd lv) of
               Inl e \<Rightarrow> (fst lv, fst res @ fst (snd lv), Inl e)
             | Inr _ \<Rightarrow>
                 (fst lv, fst res @ fst (snd lv) @ fst (load_page env (page (fst lv)) clean_url),
                  snd (load_page env (page (fst lv)) clean_url))))"
  by (simp add: NavigateTool_execute_def Let_def split: prod.splits sum.splits)








lemma add_to_cart_state: "fst (AddToCartTool_execute env st) = st"
  by (simp add: AddToCartTool_execute_def split: option.splits prod.splits sum.splits)





text \<open>
  Every run of \<^verbatim>\<open>NavigateTool.execute\<close> is a trace of headless actions, then nothing or
  the trace of the lazy launch, then the actions of the load on the stored page.  With a
  playwright handle stored the state is left as it is and nothing is launched; in any
  case at most one visible browser is launched, and only together with storing the
  playwright handle.
\<close>

lemma headless_not_visible:
  "is_headless_action a \<Longrightarrow> \<not> is_session_launch a \<and> a \<noteq> VisibleLaunch \<and> (\<forall>h u. a \<noteq> Goto h u)"
  by (cases a) simp_all

lemma execute_stages:
  assumes "NavigateTool_execute env st url = (st', tr, r)"
  shows "\<exists>hs vs ls. tr = hs @ vs @ ls \<and>
      list_all is_headless_action hs \<and>
      ((vs = [] \<and> st' = st) \<or>
       (vs = fst (snd (launch_visible env st)) \<and> st' = fst (launch_visible env st))) \<and>
      list_all (\<lambda>a. \<not> is_headless_action a \<and> \<not> is_session_launch a \<and>
                 (\<forall>h u. a = Goto h u \<longrightarrow> page st' = Some h)) ls \<and>
      ((\<exists>s. r = Inr s) \<longrightarrow>
         st' = fst (launch_visible env st) \<and> (\<exists>x. snd (snd (launch_visible env st)) = Inr x))"
proof -
  let ?d = "unquote (unquoted_parts env) url"
  let ?res = "if py_in ''google.com'' ?d then resolve_url_headless (headless env) ?d
              else ([], Inr ?d)"
  let ?lv = "launch_visible env st"
  have hs: "list_all is_headless_action (fst ?res)"
    using resolve_headless [of "headless env" ?d] by simp
  show ?thesis
  proof (cases "snd ?res")
    case (Inl e)
    with assms have "tr = fst ?res @ [] @ []" "st' = st" "r = Inl e"
      by (auto simp: execute_unfold Let_def)
    with hs show ?thesis by (intro exI [of _ "fst ?res"] exI [of _ "[]"]) simp
  next
    case (Inr clean)
    show ?thesis
    proof (cases "snd (snd ?lv)")
      case (Inl e)
      with Inr assms have "tr = fst ?res @ fst (snd ?lv) @ []" "st' = fst ?lv" "r = Inl e"
        by (auto simp: execute_unfold Let_def)
      with hs show ?thesis
        by (intro exI [of _ "fst ?res"] exI [of _ "fst (snd ?lv)"] exI [of _ "[]"]) simp
    next
      case (Inr x)
      let ?lp = "load_page env (page (fst ?lv)) clean"
      from Inr \<open>snd ?res = Inr clean\<close> assms
      have tr: "tr = fst ?res @ fst (snd ?lv) @ fst ?lp" "st' = fst ?lv"
        by (auto simp: execute_unfold Let_def)
      have "list_all (\<lambda>a. \<not> is_headless_action a \<and> \<not> is_session_launch a \<and>
              (\<forall>h u. a = Goto h u \<longrightarrow> page (fst ?lv) = Some h \<and> u = clean)) (fst ?lp)"
        by (rule load_page_trace)
      then have "list_all (\<lambda>a. \<not> is_headless_action a \<and> \<not> is_session_launch a \<and>
              (\<forall>h u. a = Goto h u \<longrightarrow> page st' = Some h)) (fst ?lp)"
        using tr(2) by (auto simp: list_all_iff)
      with hs tr Inr show ?thesis
        by (intro exI [of _ "fst ?res"] exI [of _ "fst (snd ?lv)"] exI [of _ "fst ?lp"]) simp
    qed
  qed
qed

lemma execute_initialized:
  assumes "playwright st \<noteq> None" and "NavigateTool_execute env st url = (st', tr, r)"
  shows "st' = st \<and> (\<forall>a \<in> set tr. \<not> is_session_launch a) \<and>
    VisibleLaunch \<notin> set tr \<and> (\<forall>h u. Goto h u \<in> set tr \<longrightarrow> page st = Some h)"
proof -
  from execute_stages [OF assms(2)] obtain hs vs ls where
    tr: "tr = hs @ vs @ ls" and hs: "list_all is_headless_action hs"
    and vs: "(vs = [] \<and> st' = st) \<or>
       (vs = fst (snd (launch_visible env st)) \<and> st' = fst (launch_visible env st))"
    and ls: "list_all (\<lambda>a. \<not> is_headless_action a \<and> \<not> is_session_launch a \<and>
                 (\<forall>h u. a = Goto h u \<longrightarrow> page st' = Some h)) ls"
    by blast
  from vs launch_visible_initialized [OF assms(1), of env] have v: "vs = []" "st' = st"
    by auto
  have "\<forall>a \<in> set hs. \<not> is_session_launch a \<and> a \<noteq> VisibleLaunch \<and> (\<forall>h u. a \<noteq> Goto h u)"
    using hs headless_not_visible by (auto simp: list_all_iff)
  moreover have "\<forall>a \<in> set ls. \<not> is_session_launch a \<and> a \<noteq> VisibleLaunch \<and>
      (\<forall>h u. a = Goto h u \<longrightarrow> page st = Some h)"
    using ls v by (auto simp: list_all_iff)
  ultimately show ?thesis using tr v by auto
qed

lemma execute_launch_count:
  assumes "NavigateTool_execute env st url = (st', tr, r)"
  shows "length (filter (\<lambda>a. a = VisibleLaunch) tr) \<le> 1 \<and>
    (VisibleLaunch \<in> set tr \<longrightarrow> playwright st' \<noteq> None)"
proof -
  from execute_stages [OF assms] obtain hs vs ls where
    tr: "tr = hs @ vs @ ls" and hs: "list_all is_headless_action hs"
    and vs: "(vs = [] \<and> st' = st) \<or>
       (vs = fst (snd (launch_visible env st)) \<and> st' = fst (launch_visible env st))"
    and ls: "list_all (\<lambda>a. \<not> is_headless_action a \<and> \<not> is_session_launch a \<and>
                 (\<forall>h u. a = Goto h u \<longrightarrow> page st' = Some h)) ls"
    by blast
  have h0: "filter (\<lambda>a. a = VisibleLaunch) hs = []"
    using hs headless_not_visible by (auto simp: list_all_iff filter_empty_conv)
  have l0: "filter (\<lambda>a. a = VisibleLaunch) ls = []"
    using ls by (auto simp: list_all_iff filter_empty_conv)
  have v1: "length (filter (\<lambda>a. a = VisibleLaunch) vs) \<le> 1"
    using vs launch_visible_trace [of env st] by auto
  have v2: "VisibleLaunch \<in> set vs \<longrightarrow> playwright st' \<noteq> None"
    using vs launch_visible_stores [of env st] by auto
  have mem: "VisibleLaunch \<in> set tr \<longrightarrow> VisibleLaunch \<in> set vs"
  proof
    assume "VisibleLaunch \<in> set tr"
    then have "VisibleLaunch \<in> set (filter (\<lambda>a. a = VisibleLaunch) tr)" by simp
    then have "VisibleLaunch \<in> set (filter (\<lambda>a. a = VisibleLaunch) vs)"
      using tr h0 l0 by simp
    then show "VisibleLaunch \<in> set vs" by simp
  qed
  from tr h0 l0 v1 v2 mem show ?thesis by simp
qed

text \<open>
  C3.  Two \<^verbatim>\<open>NavigateTool.execute\<close> calls in sequence from the import-time state, with
  any environments and URLs: the visible browser is launched at most once over both
  calls; once the first call has stored a playwright handle, the second call leaves the
  shared state unchanged, performs none of the four session-creating calls and sends
  every \<^verbatim>\<open>page.goto\<close> to the stored page; and when the first call returned a string, the
  session is complete (playwright and page stored) and its own \<^verbatim>\<open>page.goto\<close> went to
  that same page.
\<close>

theorem navigate_twice_one_session:
  assumes "NavigateTool_execute env1 SHARED_BROWSER_STATE url1 = (st1, tr1, r1)"
    and "NavigateTool_execute env2 st1 url2 = (st2, tr2, r2)"
  shows "length (filter (\<lambda>a. a = VisibleLaunch) (tr1 @ tr2)) \<le> 1 \<and>
    (playwright st1 \<noteq> None \<longrightarrow>
       st2 = st1 \<and> (\<forall>a \<in> set tr2. \<not> is_session_launch a) \<and>
       (\<forall>h u. Goto h u \<in> set tr2 \<longrightarrow> page st1 = Some h)) \<and>
    ((\<exists>s. r1 = Inr s) \<longrightarrow>
       playwright st1 \<noteq> None \<and> page st1 \<noteq> None \<and>
       (\<forall>h u. Goto h u \<in> set tr1 \<longrightarrow> page st1 = Some h))"
proof -
  have init: "playwright st1 \<noteq> None \<longrightarrow>
       st2 = st1 \<and> (\<forall>a \<in> set tr2. \<not> is_session_launch a) \<and>
       (\<forall>h u. Goto h u \<in> set tr2 \<longrightarrow> page st1 = Some h)"
    using execute_initialized [OF _ assms(2)] by blast
  have c1: "length (filter (\<lambda>a. a = VisibleLaunch) tr1) \<le> 1"
    and s1: "VisibleLaunch \<in> set tr1 \<longrightarrow> playwright st1 \<noteq> None"
    using execute_launch_count [OF assms(1)] by simp_all
  have c2: "length (filter (\<lambda>a. a = VisibleLaunch) tr2) \<le> 1"
    using execute_launch_count [OF assms(2)] by simp
  have count: "length (filter (\<lambda>a. a = VisibleLaunch) (tr1 @ tr2)) \<le> 1"
  proof (cases "VisibleLaunch \<in> set tr1")
    case True
    with s1 have "playwright st1 \<noteq> None" by simp
    then have "VisibleLaunch \<notin> set tr2"
      using execute_initialized [OF _ assms(2)] by blast
    then have "filter (\<lambda>a. a = VisibleLaunch) tr2 = []"
      by (auto simp: filter_empty_conv)
    with c1 show ?thesis by simp
  next
    case False
    then have "filter (\<lambda>a. a = VisibleLaunch) tr1 = []"
      by (auto simp: filter_empty_conv)
    with c2 show ?thesis by simp
  qed
  have first: "(\<exists>s. r1 = Inr s) \<longrightarrow>
       playwright st1 \<noteq> None \<and> page st1 \<noteq> None \<and>
       (\<forall>h u. Goto h u \<in> set tr1 \<longrightarrow> page st1 = Some h)"
  proof
    assume ret: "\<exists>s. r1 = Inr s"
    from execute_stages [OF assms(1)] obtain hs vs ls where
      stages: "tr1 = hs @ vs @ ls \<and>
        list_all is_headless_action hs \<and>
        ((vs = [] \<and> st1 = SHARED_BROWSER_STATE) \<or>
         (vs = fst (snd (launch_visible env1 SHARED_BROWSER_STATE)) \<and>
          st1 = fst (launch_visible env1 SHARED_BROWSER_STATE))) \<and>
        list_all (\<lambda>a. \<not> is_headless_action a \<and> \<not> is_session_launch a \<and>
                   (\<forall>h u. a = Goto h u \<longrightarrow> page st1 = Some h)) ls \<and>
        ((\<exists>s. r1 = Inr s) \<longrightarrow>
           st1 = fst (launch_visible env1 SHARED_BROWSER_STATE) \<and>
           (\<exists>x. snd (snd (launch_visible env1 SHARED_BROWSER_STATE)) = Inr x))"
      by (elim exE)
    from stages have tr: "tr1 = hs @ vs @ ls" by (elim conjE)
    from stages have hs: "list_all is_headless_action hs" by (elim conjE)
    from stages have vs: "(vs = [] \<and> st1 = SHARED_BROWSER_STATE) \<or>
         (vs = fst (snd (launch_visible env1 SHARED_BROWSER_STATE)) \<and>
          st1 = fst (launch_visible env1 SHARED_BROWSER_STATE))" by (elim conjE)
    from stages have ls: "list_all (\<lambda>a. \<not> is_headless_action a \<and> \<not> is_session_launch a \<and>
                   (\<forall>h u. a = Goto h u \<longrightarrow> page st1 = Some h)) ls" by (elim conjE)
    from stages have fin: "(\<exists>s. r1 = Inr s) \<longrightarrow>
           st1 = fst (launch_visible env1 SHARED_BROWSER_STATE) \<and>
           (\<exists>x. snd (snd (launch_visible env1 SHARED_BROWSER_STATE)) = Inr x)" by (elim conjE)
    from ret fin obtain x where
      st1: "st1 = fst (launch_visible env1 SHARED_BROWSER_STATE)"
      and lv: "snd (snd (launch_visible env1 SHARED_BROWSER_STATE)) = Inr x"
      by blast
    have "playwright SHARED_BROWSER_STATE = None"
      by (simp add: SHARED_BROWSER_STATE_def)
    from launch_visible_done [OF lv this] st1
    have p: "playwright st1 \<noteq> None \<and> page st1 \<noteq> None" by simp
    have "\<forall>a \<in> set hs. \<forall>h u. a \<noteq> Goto h u"
      using hs headless_not_visible by (auto simp: list_all_iff)
    moreover have "\<forall>a \<in> set vs. \<forall>h u. a \<noteq> Goto h u"
      using vs launch_visible_trace [of env1 SHARED_BROWSER_STATE] by (auto simp: list_all_iff)
    moreover have "\<forall>a \<in> set ls. \<forall>h u. a = Goto h u \<longrightarrow> page st1 = Some h"
      using ls by (auto simp: list_all_iff)
    ultimately have "\<forall>h u. Goto h u \<in> set tr1 \<longrightarrow> page st1 = Some h"
      using tr by auto
    with p show "playwright st1 \<noteq> None \<and> page st1 \<noteq> None \<and>
       (\<forall>h u. Goto h u \<in> set tr1 \<longrightarrow> page st1 = Some h)" by simp
  qed
  from count init first show ?thesis by blast
qed

theorem navigate_twice_one_session_witness:
  "NavigateTool_execute (navigate_ok (headless_ok ''about:blank'')) SHARED_BROWSER_STATE
       ''https://shop.example/item/42'' =
     (open_session,
      [VisibleStart, VisibleLaunch, VisibleNewContext, VisibleNewPage,
       Goto 2 ''https://shop.example/item/42'', ClickAccept 2],
      Inr ([CHR 0xE2, CHR 0x9C, CHR 0x85] @
           '' Browser Opened. Navigated to: https://shop.example/item/42'')) \<and>
   NavigateTool_execute (navigate_ok (headless_ok ''about:blank'')) open_session
       ''https://shop.example/item/43'' =
     (open_session,
      [Goto 2 ''https://shop.example/item/43'', ClickAccept 2],
      Inr ([CHR 0xE2, CHR 0x9C, CHR 0x85] @
           '' Browser Opened. Navigated to: https://shop.example/item/43'')) \<and>
   length (filter (\<lambda>a. a = VisibleLaunch)
     ([VisibleStart, VisibleLaunch, VisibleNewContext, VisibleNewPage,
       Goto 2 ''https://shop.example/item/42'', ClickAccept 2] @
      [Goto 2 ''https://shop.example/item/43'', ClickAccept 2])) \<le> 1 \<and>
   page open_session = Some 2"
proof -
  let ?env = "navigate_ok (headless_ok ''about:blank'')"
  have 1: "NavigateTool_execute ?env SHARED_BROWSER_STATE ''https://shop.example/item/42'' =
     (open_session,
      [VisibleStart, VisibleLaunch, VisibleNewContext, VisibleNewPage,
       Goto 2 ''https://shop.example/item/42'', ClickAccept 2],
      Inr ([CHR 0xE2, CHR 0x9C, CHR 0x85] @
           '' Browser Opened. Navigated to: https://shop.example/item/42''))"
    by (simp add: NavigateTool_execute_def Let_def unquote_def launch_visible_def load_page_def
        navigate_ok_def SHARED_BROWSER_STATE_def open_session_def)
  have 2: "NavigateTool_execute ?env open_session ''https://shop.example/item/43'' =
     (open_session,
      [Goto 2 ''https://shop.example/item/43'', ClickAccept 2],
      Inr ([CHR 0xE2, CHR 0x9C, CHR 0x85] @
           '' Browser Opened. Navigated to: https://shop.example/item/43''))"
    by (simp add: NavigateTool_execute_def Let_def unquote_def launch_visible_def load_page_def
        navigate_ok_def open_session_def)
  have 3: "page open_session = Some 2"
    by (simp add: open_session_def)
  from navigate_twice_one_session [OF 1 2] 1 2 3 show ?thesis
    by blast
qed

text \<open>
  C9 (as amended).  Once a playwright handle is stored, \<^verbatim>\<open>NavigateTool.execute\<close>
  leaves the three stored handles unchanged and performs none of the session-creating
  calls, also when the page handle is still \<^verbatim>\<open>None\<close>; in that partial state the call
  returns the "Navigation Error" string of the missing page, unless the decoded URL
  contains \<^verbatim>\<open>google.com\<close> and the headless resolution raises, in which case that
  exception is raised instead.
\<close>

theorem navigate_never_relaunches:
  assumes "playwright st \<noteq> None"
    and "NavigateTool_execute env st url = (st', tr, r)"
  shows "st' = st \<and> (\<forall>a \<in> set tr. \<not> is_session_launch a) \<and>
    (page st = None \<longrightarrow>
       r = Inr (''Navigation Error: '' @ [CHR 0x27] @
                ''NoneType' object has no attribute 'goto'' @ [CHR 0x27]) \<or>
       (py_in ''google.com'' (unquote (unquoted_parts env) url) \<and>
        (\<exists>e. r = Inl e \<and>
          snd (resolve_url_headless (headless env) (unquote (unquoted_parts env) url)) = Inl e)))"
proof -
  let ?d = "unquote (unquoted_parts env) url"
  let ?res = "if py_in ''google.com'' ?d then resolve_url_headless (headless env) ?d
              else ([], Inr ?d)"
  have lv: "launch_visible env st = (st, [], Inr ())"
    by (rule launch_visible_initialized [OF assms(1)])
  have a: "st' = st \<and> (\<forall>a \<in> set tr. \<not> is_session_launch a)"
    using execute_initialized [OF assms] by blast
  have b: "page st = None \<longrightarrow>
       r = Inr (''Navigation Error: '' @ [CHR 0x27] @
                ''NoneType' object has no attribute 'goto'' @ [CHR 0x27]) \<or>
       (py_in ''google.com'' ?d \<and>
        (\<exists>e. r = Inl e \<and> snd (resolve_url_headless (headless env) ?d) = Inl e))"
  proof
    assume p: "page st = None"
    show "r = Inr (''Navigation Error: '' @ [CHR 0x27] @
                ''NoneType' object has no attribute 'goto'' @ [CHR 0x27]) \<or>
       (py_in ''google.com'' ?d \<and>
        (\<exists>e. r = Inl e \<and> snd (resolve_url_headless (headless env) ?d) = Inl e))"
    proof (cases "snd ?res")
      case (Inl e)
      then have g: "py_in ''google.com'' ?d"
        by (cases "py_in ''google.com'' ?d") simp_all
      with Inl have "snd (resolve_url_headless (headless env) ?d) = Inl e" by simp
      moreover from Inl assms(2) have "r = Inl e"
        by (auto simp: execute_unfold Let_def)
      ultimately show ?thesis using g by blast
    next
      case (Inr clean)
      with assms(2) lv p have "r = snd (load_page env None clean)"
        by (auto simp: execute_unfold Let_def)
      then show ?thesis by (simp add: load_page_def)
    qed
  qed
  from a b show ?thesis by blast
qed

theorem navigate_never_relaunches_witness:
  "NavigateTool_execute chromium_missing SHARED_BROWSER_STATE ''https://shop.example/item/42'' =
     (partial_session, [VisibleStart, VisibleLaunch],
      Inl (Raised ''BrowserType.launch: Executable doesn't exist'')) \<and>
   playwright partial_session \<noteq> None \<and> page partial_session = None \<and>
   NavigateTool_execute (navigate_ok (headless_ok ''about:blank'')) partial_session
       ''https://shop.example/item/42'' =
     (partial_session, [],
      Inr (''Navigation Error: '' @ [CHR 0x27] @
           ''NoneType' object has no attribute 'goto'' @ [CHR 0x27]))"
proof -
  let ?env = "navigate_ok (headless_ok ''about:blank'')"
  let ?run = "NavigateTool_execute ?env partial_session ''https://shop.example/item/42''"
  have 0: "NavigateTool_execute chromium_missing SHARED_BROWSER_STATE ''https://shop.example/item/42'' =
     (partial_session, [VisibleStart, VisibleLaunch],
      Inl (Raised ''BrowserType.launch: Executable doesn't exist''))"
    by (simp add: NavigateTool_execute_def Let_def unquote_def launch_visible_def chromium_missing_def
        navigate_ok_def SHARED_BROWSER_STATE_def partial_session_def)
  have p: "playwright partial_session \<noteq> None" and q: "page partial_session = None"
    by (simp_all add: partial_session_def)
  have r: "?run = (fst ?run, fst (snd ?run), snd (snd ?run))"
    by simp
  have g: "\<not> py_in ''google.com'' (unquote (unquoted_parts ?env) ''https://shop.example/item/42'')"
    by (simp add: unquote_def)
  have t: "fst (snd ?run) = []"
    by (simp add: NavigateTool_execute_def Let_def unquote_def launch_visible_def load_page_def
        navigate_ok_def partial_session_def)
  from navigate_never_relaunches [OF p r] q g
  have "fst ?run = partial_session \<and>
    snd (snd ?run) = Inr (''Navigation Error: '' @ [CHR 0x27] @
           ''NoneType' object has no attribute 'goto'' @ [CHR 0x27])"
    by blast
  with t have "?run = (partial_session, [],
      Inr (''Navigation Error: '' @ [CHR 0x27] @
           ''NoneType' object has no attribute 'goto'' @ [CHR 0x27]))"
    by (metis r)
  with 0 p q show ?thesis by blast
qed

text \<open>
  C9 as stated promises a "Navigation Error" string for every later call.  In the partial
  state left by a failed launch, a search-engine URL starts the resolver first, whose
  own launch raises outside its \<^verbatim>\<open>try\<close>: the call raises and returns no string.
\<close>

theorem navigate_raises_in_partial_session:
  "playwright partial_session \<noteq> None \<and> page partial_session = None \<and>
   NavigateTool_execute chromium_missing partial_session ''https://www.google.com/aclk?sa=l'' =
     (partial_session, [HeadlessStart, HeadlessLaunch, HeadlessStop],
      Inl (Raised ''BrowserType.launch: Executable doesn't exist''))"
  by (simp add: NavigateTool_execute_def Let_def unquote_def resolve_url_headless_def resolve_body_def
      chromium_missing_def navigate_ok_def headless_ok_def partial_session_def)

end
